theory Spec2Isabelle
  imports Main "HOL-Library.AList" "HOL-Library.Multiset"
begin

section \<open>Record model (types.ts)\<close>

text \<open>
  \<^verbatim>\<open>PackingStatus\<close> and \<^verbatim>\<open>BillData\<close> as declared in the source. Optional fields
  (\<^verbatim>\<open>imageUrl?\<close>, \<^verbatim>\<open>colorTheme?\<close>, \<^verbatim>\<open>packedAt?\<close>) are options, \<open>None\<close> standing for an
  absent or \<^verbatim>\<open>undefined\<close> property. The timestamps are readings of \<^verbatim>\<open>Date.now()\<close>, which
  are integers (milliseconds), and \<^verbatim>\<open>boxCount\<close> is an integer count; both are modelled
  as \<open>int\<close>. The field \<^verbatim>\<open>id\<close> is called \<open>bill_id\<close> because \<open>id\<close> is the identity
  function of HOL.
\<close>

datatype PackingStatus = PENDING | PACKED

record BillData =
  bill_id :: string
  imageUrl :: "string option"
  customerName :: string
  address :: string
  invoiceNo :: string
  billDate :: string
  status :: PackingStatus
  isDelivery :: bool
  hasCRN :: bool
  isEditedBill :: bool
  isAdditionalBill :: bool
  boxCount :: int
  description :: string
  colorTheme :: "string option"
  entryDate :: string
  createdAt :: int
  updatedAt :: int
  packedAt :: "int option"

section \<open>The platform: JSON, localStorage, the hosted table\<close>

text \<open>
  The storage service calls \<^verbatim>\<open>JSON.stringify\<close>, \<^verbatim>\<open>JSON.parse\<close> and
  \<^verbatim>\<open>localStorage\<close>. These belong to the JavaScript platform, not to the repository, so
  they are parameters of the model: \<open>JSON_parse\<close> returns \<open>None\<close> where the platform
  function throws a \<^verbatim>\<open>SyntaxError\<close>, and \<open>quota\<close> is the number of characters the
  storage area accepts before \<^verbatim>\<open>setItem\<close> throws a \<^verbatim>\<open>QuotaExceededError\<close>.
\<close>

record Platform =
  JSON_stringify :: "BillData list \<Rightarrow> string"
  JSON_parse :: "string \<Rightarrow> BillData list option"
  quota :: nat

datatype DOMException = QuotaExceededError

type_synonym Storage = "(string \<times> string) list"

definition storageSize :: "Storage \<Rightarrow> nat" where
  "storageSize items = sum_list (map (\<lambda>(k, v). length k + length v) items)"

definition getItem :: "Storage \<Rightarrow> string \<Rightarrow> string option" where
  "getItem items k = map_of items k"

text \<open>\<^verbatim>\<open>setItem\<close> either stores the whole value or throws and stores nothing.\<close>

definition setItem :: "Platform \<Rightarrow> string \<Rightarrow> string \<Rightarrow> Storage \<Rightarrow> DOMException + Storage" where
  "setItem P k v items =
     (let items' = AList.update k v items
      in if storageSize items' \<le> quota P then Inr items' else Inl QuotaExceededError)"

definition removeItem :: "string \<Rightarrow> Storage \<Rightarrow> Storage" where
  "removeItem k items = AList.delete k items"

text \<open>
  The hosted table \<^verbatim>\<open>bills\<close> has the columns \<^verbatim>\<open>id\<close> (primary key), \<^verbatim>\<open>data\<close> and
  \<^verbatim>\<open>updated_at\<close>. The client is modelled together with the table it talks to: a call
  answers with an error when the service is not \<open>reachable\<close>, and every call is
  appended to \<open>requests\<close>, so that what was sent can be observed.
\<close>

record Row =
  row_id :: string
  data :: BillData
  updated_at :: int

datatype Request = Select | Upsert Row | Delete string

datatype PostgrestError = PostgrestError

record SupabaseClient =
  bills_table :: "Row list"
  reachable :: bool
  requests :: "Request list"

definition from_bills_select :: "SupabaseClient \<Rightarrow> (PostgrestError + Row list) \<times> SupabaseClient" where
  "from_bills_select c =
     (if reachable c then Inr (bills_table c) else Inl PostgrestError,
      c\<lparr>requests := requests c @ [Select]\<rparr>)"

fun upsertRow :: "Row \<Rightarrow> Row list \<Rightarrow> Row list" where
  "upsertRow p [] = [p]"
| "upsertRow p (r # rs) = (if row_id r = row_id p then p # rs else r # upsertRow p rs)"

definition from_bills_upsert :: "Row \<Rightarrow> SupabaseClient \<Rightarrow> PostgrestError option \<times> SupabaseClient" where
  "from_bills_upsert payload c =
     (if reachable c
      then (None, c\<lparr>bills_table := upsertRow payload (bills_table c),
                     requests := requests c @ [Upsert payload]\<rparr>)
      else (Some PostgrestError, c\<lparr>requests := requests c @ [Upsert payload]\<rparr>))"

definition from_bills_delete_eq_id :: "string \<Rightarrow> SupabaseClient \<Rightarrow> PostgrestError option \<times> SupabaseClient" where
  "from_bills_delete_eq_id i c =
     (if reachable c
      then (None, c\<lparr>bills_table := filter (\<lambda>r. row_id r \<noteq> i) (bills_table c),
                     requests := requests c @ [Delete i]\<rparr>)
      else (Some PostgrestError, c\<lparr>requests := requests c @ [Delete i]\<rparr>))"

section \<open>The storage service (services/storageService.ts)\<close>

text \<open>
  The state the service works on: the content of \<^verbatim>\<open>localStorage\<close>, the module variable
  \<^verbatim>\<open>supabase\<close> (\<open>None\<close> for \<^verbatim>\<open>null\<close>), and the \<^verbatim>\<open>alert\<close> dialogs shown to the user so
  far. Output to the console is write-only diagnostics and is left out.
\<close>

record World =
  localStorage :: Storage
  supabase :: "SupabaseClient option"
  alerts :: "string list"

definition STORAGE_KEY :: string where
  "STORAGE_KEY = ''grace_bills_data''"

definition SUPABASE_CONFIG_KEY :: string where
  "SUPABASE_CONFIG_KEY = ''grace_supabase_config''"

text \<open>
  \<^verbatim>\<open>getStoredBills\<close>: an absent key and the empty string are falsy and give \<^verbatim>\<open>[]\<close>; a
  text that \<^verbatim>\<open>JSON.parse\<close> rejects is caught and gives \<^verbatim>\<open>[]\<close> as well.
\<close>

definition getStoredBills :: "Platform \<Rightarrow> World \<Rightarrow> BillData list" where
  "getStoredBills P w =
     (case getItem (localStorage w) STORAGE_KEY of
        None \<Rightarrow> []
      | Some stored \<Rightarrow>
          if stored = [] then []
          else (case JSON_parse P stored of None \<Rightarrow> [] | Some bills \<Rightarrow> bills))"

text \<open>\<^verbatim>\<open>saveBillsToStorage\<close>: a failed \<^verbatim>\<open>setItem\<close> is caught and answered with an alert.\<close>

definition saveBillsToStorage :: "Platform \<Rightarrow> BillData list \<Rightarrow> World \<Rightarrow> World" where
  "saveBillsToStorage P bills w =
     (case setItem P STORAGE_KEY (JSON_stringify P bills) (localStorage w) of
        Inr items \<Rightarrow> w\<lparr>localStorage := items\<rparr>
      | Inl e \<Rightarrow> w\<lparr>alerts := alerts w @ [''Storage full! Please delete some old bills or images.'']\<rparr>)"

text \<open>
  \<^verbatim>\<open>syncUpItem\<close>: \<open>payloadOf\<close> is the object it builds; an error of the upsert is only
  logged.
\<close>

definition payloadOf :: "BillData \<Rightarrow> Row" where
  "payloadOf bill = \<lparr>row_id = bill_id bill, data = bill, updated_at = updatedAt bill\<rparr>"

definition syncUpItem :: "BillData \<Rightarrow> World \<Rightarrow> World" where
  "syncUpItem bill w =
     (case supabase w of
        None \<Rightarrow> w
      | Some c \<Rightarrow>
          (let payload = payloadOf bill
           in w\<lparr>supabase := Some (snd (from_bills_upsert payload c))\<rparr>))"

definition deleteRemoteItem :: "string \<Rightarrow> World \<Rightarrow> World" where
  "deleteRemoteItem i w =
     (case supabase w of
        None \<Rightarrow> w
      | Some c \<Rightarrow> w\<lparr>supabase := Some (snd (from_bills_delete_eq_id i c))\<rparr>)"

text \<open>\<^verbatim>\<open>Array.prototype.findIndex\<close>: the first index whose element satisfies the test, or \<open>-1\<close>.\<close>

fun findIndex :: "('a \<Rightarrow> bool) \<Rightarrow> 'a list \<Rightarrow> int" where
  "findIndex p [] = - 1"
| "findIndex p (x # xs) =
     (if p x then 0 else (let i = findIndex p xs in if i \<ge> 0 then i + 1 else - 1))"

definition saveBillToStorage :: "Platform \<Rightarrow> BillData \<Rightarrow> World \<Rightarrow> World" where
  "saveBillToStorage P bill w =
     (let bills = getStoredBills P w;
          index = findIndex (\<lambda>b. bill_id b = bill_id bill) bills;
          bills' = (if index \<ge> 0 then bills[nat index := bill] else bill # bills);
          w' = saveBillsToStorage P bills' w
      in if supabase w' \<noteq> None then syncUpItem bill w' else w')"

definition deleteBillFromStorage :: "Platform \<Rightarrow> string \<Rightarrow> World \<Rightarrow> World" where
  "deleteBillFromStorage P i w =
     (let bills = filter (\<lambda>b. bill_id b \<noteq> i) (getStoredBills P w);
          w' = saveBillsToStorage P bills w
      in if supabase w' \<noteq> None then deleteRemoteItem i w' else w')"

definition clearAllBills :: "World \<Rightarrow> World" where
  "clearAllBills w = w\<lparr>localStorage := removeItem STORAGE_KEY (localStorage w)\<rparr>"

definition isSupabaseConnected :: "World \<Rightarrow> bool" where
  "isSupabaseConnected w = (supabase w \<noteq> None)"

subsection \<open>fullSync\<close>

text \<open>
  A JavaScript \<^verbatim>\<open>Map\<close> iterates in insertion order, and \<^verbatim>\<open>set\<close> on a key that is
  present replaces the value in place: this is \<open>AList.update\<close> on an association list;
  \<^verbatim>\<open>get\<close> is \<open>map_of\<close>. \<open>mergeRemote\<close> is the body of the \<^verbatim>\<open>remoteBills.forEach\<close>.
\<close>

definition mergeRemote :: "BillData \<Rightarrow> (string \<times> BillData) list \<Rightarrow> (string \<times> BillData) list" where
  "mergeRemote r mergedMap =
     (case map_of mergedMap (bill_id r) of
        None \<Rightarrow> AList.update (bill_id r) r mergedMap
      | Some local \<Rightarrow>
          if updatedAt r > updatedAt local then AList.update (bill_id r) r mergedMap
          else mergedMap)"

definition mergedMapOf :: "BillData list \<Rightarrow> BillData list \<Rightarrow> (string \<times> BillData) list" where
  "mergedMapOf localBills remoteBills =
     fold mergeRemote remoteBills (fold (\<lambda>b m. AList.update (bill_id b) b m) localBills [])"

text \<open>
  \<^verbatim>\<open>Array.prototype.sort\<close> is stable, and the comparator \<^verbatim>\<open>b.createdAt - a.createdAt\<close>
  orders by \<^verbatim>\<open>createdAt\<close> descending: the stable insertion sort \<open>sort_key\<close> on the
  negated key.
\<close>

definition mergedBillsOf :: "BillData list \<Rightarrow> BillData list \<Rightarrow> BillData list" where
  "mergedBillsOf localBills remoteBills =
     sort_key (\<lambda>b. - createdAt b) (map snd (mergedMapOf localBills remoteBills))"

text \<open>The test of the push loop: no remote counterpart, or strictly newer than it.\<close>

definition needsPush :: "BillData list \<Rightarrow> BillData \<Rightarrow> bool" where
  "needsPush remoteBills bill =
     (case find (\<lambda>r. bill_id r = bill_id bill) remoteBills of
        None \<Rightarrow> True
      | Some remote \<Rightarrow> updatedAt bill > updatedAt remote)"

definition fullSync :: "Platform \<Rightarrow> World \<Rightarrow> BillData list \<times> World" where
  "fullSync P w =
     (case supabase w of
        None \<Rightarrow> (getStoredBills P w, w)
      | Some c \<Rightarrow>
          (case from_bills_select c of
             (Inl error, c') \<Rightarrow>
               (let w' = w\<lparr>supabase := Some c'\<rparr> in (getStoredBills P w', w'))
           | (Inr remoteRows, c') \<Rightarrow>
               (let w0 = w\<lparr>supabase := Some c'\<rparr>;
                    remoteBills = map data remoteRows;
                    localBills = getStoredBills P w0;
                    mergedBills = mergedBillsOf localBills remoteBills;
                    w1 = saveBillsToStorage P mergedBills w0;
                    w2 = fold (\<lambda>bill v. if needsPush remoteBills bill then syncUpItem bill v else v)
                           mergedBills w1
                in (mergedBills, w2))))"

section \<open>The application (App.tsx) and the record card (components/BillCard.tsx)\<close>

text \<open>
  The React state of \<^verbatim>\<open>App\<close> that the handlers below read or write. A handler is a
  function from the state and the world to the state and the world after it has run.
  What the environment supplies is an argument: the reading of \<^verbatim>\<open>Date.now()\<close>, the
  identifier made by \<^verbatim>\<open>generateId()\<close>, the answer to \<^verbatim>\<open>window.confirm\<close>, the result of
  reading and analysing an image.
\<close>

record Extracted =
  ex_customerName :: string
  ex_address :: string
  ex_invoiceNo :: string
  ex_billDate :: string

record ManualData =
  md_boxCount :: int
  md_description :: string

record DuplicateAlert =
  existing :: BillData
  newData :: Extracted
  base64 :: "string option"

record App =
  allBills :: "BillData list"
  currentDate :: string
  loadingId :: "string option"
  processStatus :: string
  expandedId :: "string option"
  isSelectionMode :: bool
  selectedIds :: "string set"
  showGroupModal :: bool
  groupNameInput :: string
  groupColorInput :: string
  duplicateAlert :: "DuplicateAlert option"
  isCloudConnectedState :: bool
  isSyncing :: bool

text \<open>
  \<^verbatim>\<open>handleSync\<close>. The batch handlers call it without awaiting it: it starts when they
  return and replaces \<^verbatim>\<open>allBills\<close> by what \<^verbatim>\<open>fullSync\<close> returns. The handlers below
  therefore return, beside the state at their own end, whether they started a sync;
  \<open>thenSync\<close> runs it.
\<close>

definition handleSync :: "Platform \<Rightarrow> App \<times> World \<Rightarrow> App \<times> World" where
  "handleSync P s =
     (case s of (a, w) \<Rightarrow>
        if \<not> isSupabaseConnected w then (a, w)
        else (case fullSync P w of
                (synced, w') \<Rightarrow> (a\<lparr>allBills := synced, isSyncing := False\<rparr>, w')))"

definition thenSync :: "Platform \<Rightarrow> (App \<times> World) \<times> bool \<Rightarrow> App \<times> World" where
  "thenSync P r = (case r of (s, started) \<Rightarrow> if started then handleSync P s else s)"

definition applyGroupSettings :: "Platform \<Rightarrow> int \<Rightarrow> App \<times> World \<Rightarrow> (App \<times> World) \<times> bool" where
  "applyGroupSettings P now s =
     (case s of (a, w) \<Rightarrow>
        (let updates = map (\<lambda>b. if bill_id b \<in> selectedIds a
                                 then b\<lparr>description := groupNameInput a,
                                        colorTheme := (if groupColorInput a = [] then None
                                                       else Some (groupColorInput a)),
                                        updatedAt := now\<rparr>
                                 else b) (allBills a);
             w' = saveBillsToStorage P updates w
         in ((a\<lparr>showGroupModal := False, allBills := updates,
                  isSelectionMode := False, selectedIds := {}\<rparr>, w'),
             isCloudConnectedState a)))"

definition handlePackSelected :: "Platform \<Rightarrow> bool \<Rightarrow> int \<Rightarrow> App \<times> World \<Rightarrow> (App \<times> World) \<times> bool" where
  "handlePackSelected P confirmed now s =
     (case s of (a, w) \<Rightarrow>
        if selectedIds a = {} then ((a, w), False)
        else if confirmed then
          (let updates = map (\<lambda>b. if bill_id b \<in> selectedIds a
                                   then b\<lparr>status := PACKED, packedAt := Some now, updatedAt := now\<rparr>
                                   else b) (allBills a);
               w' = saveBillsToStorage P updates w
           in ((a\<lparr>allBills := updates, isSelectionMode := False, selectedIds := {}\<rparr>, w'),
               isCloudConnectedState a))
        else ((a, w), False))"

text \<open>
  \<^verbatim>\<open>createBill\<close>. The object literal reads the clock twice, once for \<^verbatim>\<open>createdAt\<close>
  and once for \<^verbatim>\<open>updatedAt\<close>: \<open>t_created\<close> and \<open>t_updated\<close> are the two readings, in
  this order. On strings and integers \<^verbatim>\<open>x || ''\<close> and \<^verbatim>\<open>x || 0\<close> give \<^verbatim>\<open>x\<close>.
\<close>

definition createBill ::
  "Platform \<Rightarrow> string \<Rightarrow> int \<Rightarrow> int \<Rightarrow> Extracted \<Rightarrow> string option \<Rightarrow> ManualData option \<Rightarrow>
   App \<times> World \<Rightarrow> App \<times> World" where
  "createBill P newId t_created t_updated extracted base64Image manualData s =
     (case s of (a, w) \<Rightarrow>
        (let newBill = \<lparr>
               bill_id = newId,
               imageUrl = Some (case base64Image of None \<Rightarrow> [] | Some i \<Rightarrow> i),
               customerName = ex_customerName extracted,
               address = ex_address extracted,
               invoiceNo = ex_invoiceNo extracted,
               billDate = ex_billDate extracted,
               status = PENDING,
               isDelivery = False,
               hasCRN = False,
               isEditedBill = False,
               isAdditionalBill = False,
               boxCount = (case manualData of None \<Rightarrow> 0 | Some m \<Rightarrow> md_boxCount m),
               description = (case manualData of None \<Rightarrow> [] | Some m \<Rightarrow> md_description m),
               colorTheme = None,
               entryDate = currentDate a,
               createdAt = t_created,
               updatedAt = t_updated,
               packedAt = None\<rparr>
         in (a\<lparr>allBills := newBill # allBills a, expandedId := Some (bill_id newBill)\<rparr>,
             saveBillToStorage P newBill w)))"

definition handleManualQuickAdd ::
  "Platform \<Rightarrow> string \<Rightarrow> int \<Rightarrow> int \<Rightarrow> string \<Rightarrow> string \<Rightarrow> int \<Rightarrow> string \<Rightarrow>
   App \<times> World \<Rightarrow> App \<times> World" where
  "handleManualQuickAdd P newId t_created t_updated name invoice boxes shop s =
     (case s of (a, w) \<Rightarrow>
        (case createBill P newId t_created t_updated
                \<lparr>ex_customerName = name, ex_address = [], ex_invoiceNo = invoice,
                 ex_billDate = currentDate a\<rparr>
                None (Some \<lparr>md_boxCount = boxes, md_description = shop\<rparr>) (a, w) of
           (a', w') \<Rightarrow> (a'\<lparr>loadingId := None, processStatus := []\<rparr>, w')))"

subsection \<open>The duplicate check of handleAddBill\<close>

text \<open>
  \<^verbatim>\<open>String.prototype.trim\<close> and \<^verbatim>\<open>toLowerCase\<close> on ASCII text: the white space and
  line terminators below \<open>0x80\<close>, and the letters \<open>A\<close> to \<open>Z\<close>.
\<close>

definition isWhiteSpace :: "char \<Rightarrow> bool" where
  "isWhiteSpace c = (c \<in> set [CHR 0x09, CHR 0x0A, CHR 0x0B, CHR 0x0C, CHR 0x0D, CHR '' ''])"

definition trim :: "string \<Rightarrow> string" where
  "trim s = rev (dropWhile isWhiteSpace (rev (dropWhile isWhiteSpace s)))"

definition toLowerCase_char :: "char \<Rightarrow> char" where
  "toLowerCase_char c =
     (let n = (of_char c :: nat) in if 65 \<le> n \<and> n \<le> 90 then char_of (n + 32) else c)"

definition toLowerCase :: "string \<Rightarrow> string" where
  "toLowerCase s = map toLowerCase_char s"

text \<open>
  The block under \<^verbatim>\<open>DUPLICATE CHECK LOGIC\<close>: the record it finds, if any. A string is
  truthy when it is not empty.
\<close>

definition duplicateCheck :: "string \<Rightarrow> BillData list \<Rightarrow> BillData option" where
  "duplicateCheck candidateInvoiceNo bills =
     (if candidateInvoiceNo \<noteq> [] then
        (let normalizedNew = toLowerCase (trim candidateInvoiceNo)
         in if length normalizedNew > 0
            then find (\<lambda>b. invoiceNo b \<noteq> [] \<and> toLowerCase (trim (invoiceNo b)) = normalizedNew) bills
            else None)
      else None)"

text \<open>
  \<^verbatim>\<open>handleAddBill\<close>. \<open>NoFile\<close> is the call with \<^verbatim>\<open>null\<close>; \<open>FileFailed\<close> is a file whose
  reading rejects (the exception is caught and logged); \<open>FileRead i e\<close> is a file read
  and compressed to \<open>i\<close> and analysed to \<open>e\<close>. The \<^verbatim>\<open>finally\<close> block tests the
  \<^verbatim>\<open>duplicateAlert\<close> of the render in which the handler was made.
\<close>

datatype FileResult = NoFile | FileFailed | FileRead string Extracted

definition handleAddBill ::
  "Platform \<Rightarrow> string \<Rightarrow> int \<Rightarrow> int \<Rightarrow> FileResult \<Rightarrow> App \<times> World \<Rightarrow> App \<times> World" where
  "handleAddBill P newId t_created t_updated file s =
     (case s of (a, w) \<Rightarrow>
        (let fin = (\<lambda>(b, v). if duplicateAlert a = None
                                   then (b\<lparr>loadingId := None, processStatus := []\<rparr>, v)
                                   else (b, v));
             a1 = a\<lparr>loadingId := Some ''new'', processStatus := ''Compressing image...''\<rparr>;
             blank = \<lparr>ex_customerName = [], ex_address = [], ex_invoiceNo = [], ex_billDate = []\<rparr>
         in case file of
              NoFile \<Rightarrow>
                fin (createBill P newId t_created t_updated blank None None
                           (a1\<lparr>processStatus := ''Saving bill...''\<rparr>, w))
            | FileFailed \<Rightarrow> fin (a1, w)
            | FileRead base64Image extracted \<Rightarrow>
                (case duplicateCheck (ex_invoiceNo extracted) (allBills a) of
                   Some duplicate \<Rightarrow>
                     fin (a1\<lparr>loadingId := None, processStatus := [],
                                  duplicateAlert := Some \<lparr>existing = duplicate, newData = extracted,
                                                          base64 = Some base64Image\<rparr>\<rparr>, w)
                 | None \<Rightarrow>
                     fin (createBill P newId t_created t_updated extracted (Some base64Image) None
                                (a1\<lparr>processStatus := ''Saving bill...''\<rparr>, w)))))"

subsection \<open>Field edits\<close>

definition handleUpdateBill :: "Platform \<Rightarrow> BillData \<Rightarrow> App \<times> World \<Rightarrow> App \<times> World" where
  "handleUpdateBill P updated s =
     (case s of (a, w) \<Rightarrow>
        (a\<lparr>allBills := map (\<lambda>b. if bill_id b = bill_id updated then updated else b) (allBills a)\<rparr>,
         saveBillToStorage P updated w))"

text \<open>
  \<^verbatim>\<open>handleChange(field, value)\<close> of the card, for the fields its controls edit; the card
  hands the new record to \<^verbatim>\<open>onChange\<close>, which is \<^verbatim>\<open>handleUpdateBill\<close>.
\<close>

datatype FieldValue =
    Set_customerName string
  | Set_address string
  | Set_invoiceNo string
  | Set_billDate string
  | Set_boxCount int
  | Set_isDelivery bool
  | Set_hasCRN bool
  | Set_isAdditionalBill bool
  | Set_isEditedBill bool
  | Set_colorTheme string

fun assignField :: "FieldValue \<Rightarrow> BillData \<Rightarrow> BillData" where
  "assignField (Set_customerName v) b = b\<lparr>customerName := v\<rparr>"
| "assignField (Set_address v) b = b\<lparr>address := v\<rparr>"
| "assignField (Set_invoiceNo v) b = b\<lparr>invoiceNo := v\<rparr>"
| "assignField (Set_billDate v) b = b\<lparr>billDate := v\<rparr>"
| "assignField (Set_boxCount v) b = b\<lparr>boxCount := v\<rparr>"
| "assignField (Set_isDelivery v) b = b\<lparr>isDelivery := v\<rparr>"
| "assignField (Set_hasCRN v) b = b\<lparr>hasCRN := v\<rparr>"
| "assignField (Set_isAdditionalBill v) b = b\<lparr>isAdditionalBill := v\<rparr>"
| "assignField (Set_isEditedBill v) b = b\<lparr>isEditedBill := v\<rparr>"
| "assignField (Set_colorTheme v) b = b\<lparr>colorTheme := Some v\<rparr>"

definition handleChange :: "Platform \<Rightarrow> BillData \<Rightarrow> FieldValue \<Rightarrow> int \<Rightarrow> App \<times> World \<Rightarrow> App \<times> World" where
  "handleChange P bill fv now s = handleUpdateBill P ((assignField fv bill)\<lparr>updatedAt := now\<rparr>) s"

section \<open>Observations and assumptions on the platform\<close>

text \<open>The requests sent to the hosted table between two states of the world.\<close>

definition requestsDuring :: "World \<Rightarrow> World \<Rightarrow> Request list" where
  "requestsDuring w w' =
     (case supabase w of
        None \<Rightarrow> []
      | Some c \<Rightarrow>
          (case supabase w' of
             None \<Rightarrow> []
           | Some c' \<Rightarrow> drop (length (requests c)) (requests c')))"

text \<open>
  \<open>writeAccepted\<close>: the \<^verbatim>\<open>setItem\<close> of \<^verbatim>\<open>saveBillsToStorage\<close> does not throw.
  \<open>jsonRoundTrips\<close>: the platform's JSON functions are inverse on this list, and the text
  is not the empty string (it never is for an array).
\<close>

definition writeAccepted :: "Platform \<Rightarrow> BillData list \<Rightarrow> World \<Rightarrow> bool" where
  "writeAccepted P bills w =
     (case setItem P STORAGE_KEY (JSON_stringify P bills) (localStorage w) of
        Inl e \<Rightarrow> False
      | Inr items \<Rightarrow> True)"

definition jsonRoundTrips :: "Platform \<Rightarrow> BillData list \<Rightarrow> bool" where
  "jsonRoundTrips P bills =
     (JSON_stringify P bills \<noteq> [] \<and> JSON_parse P (JSON_stringify P bills) = Some bills)"

section \<open>A concrete platform\<close>

text \<open>
  An instance of \<open>Platform\<close> on which the model runs: a serialisation of record lists
  with length-prefixed fields (numbers in unary), and its inverse. It stands in for the
  JSON text of the real platform wherever a theorem is applied to concrete data.
\<close>

definition enc_nat :: "nat \<Rightarrow> string" where
  "enc_nat n = replicate n (CHR ''1'') @ ''0''"

definition dec_nat :: "string \<Rightarrow> nat \<times> string" where
  "dec_nat t =
     (length (takeWhile (\<lambda>c. c = CHR ''1'') t), drop 1 (dropWhile (\<lambda>c. c = CHR ''1'') t))"

definition enc_str :: "string \<Rightarrow> string" where
  "enc_str s = enc_nat (length s) @ s"

definition dec_str :: "string \<Rightarrow> string \<times> string" where
  "dec_str t = (case dec_nat t of (n, r) \<Rightarrow> (take n r, drop n r))"

definition enc_int :: "int \<Rightarrow> string" where
  "enc_int i = (if i < 0 then CHR ''-'' else CHR ''+'') # enc_nat (nat \<bar>i\<bar>)"

definition dec_int :: "string \<Rightarrow> int \<times> string" where
  "dec_int t =
     (case dec_nat (tl t) of (n, r) \<Rightarrow> (if take 1 t = ''-'' then - int n else int n, r))"

definition enc_bool :: "bool \<Rightarrow> string" where
  "enc_bool b = (if b then ''t'' else ''f'')"

definition dec_bool :: "string \<Rightarrow> bool \<times> string" where
  "dec_bool t = (take 1 t = ''t'', tl t)"

definition enc_opt :: "('a \<Rightarrow> string) \<Rightarrow> 'a option \<Rightarrow> string" where
  "enc_opt e x = (case x of None \<Rightarrow> ''n'' | Some v \<Rightarrow> CHR ''s'' # e v)"

definition dec_opt :: "(string \<Rightarrow> 'a \<times> string) \<Rightarrow> string \<Rightarrow> 'a option \<times> string" where
  "dec_opt d t =
     (if take 1 t = ''s'' then (case d (tl t) of (v, r) \<Rightarrow> (Some v, r)) else (None, tl t))"

definition enc_bill :: "BillData \<Rightarrow> string" where
  "enc_bill b =
     enc_str (bill_id b) @ enc_opt enc_str (imageUrl b) @ enc_str (customerName b) @
     enc_str (address b) @ enc_str (invoiceNo b) @ enc_str (billDate b) @
     enc_bool (status b = PACKED) @ enc_bool (isDelivery b) @ enc_bool (hasCRN b) @
     enc_bool (isEditedBill b) @ enc_bool (isAdditionalBill b) @ enc_int (boxCount b) @
     enc_str (description b) @ enc_opt enc_str (colorTheme b) @ enc_str (entryDate b) @
     enc_int (createdAt b) @ enc_int (updatedAt b) @ enc_opt enc_int (packedAt b)"

definition dec_bill :: "string \<Rightarrow> BillData \<times> string" where
  "dec_bill t0 =
     (case dec_str t0 of (f1, t1) \<Rightarrow>
      case dec_opt dec_str t1 of (f2, t2) \<Rightarrow>
      case dec_str t2 of (f3, t3) \<Rightarrow>
      case dec_str t3 of (f4, t4) \<Rightarrow>
      case dec_str t4 of (f5, t5) \<Rightarrow>
      case dec_str t5 of (f6, t6) \<Rightarrow>
      case dec_bool t6 of (f7, t7) \<Rightarrow>
      case dec_bool t7 of (f8, t8) \<Rightarrow>
      case dec_bool t8 of (f9, t9) \<Rightarrow>
      case dec_bool t9 of (f10, t10) \<Rightarrow>
      case dec_bool t10 of (f11, t11) \<Rightarrow>
      case dec_int t11 of (f12, t12) \<Rightarrow>
      case dec_str t12 of (f13, t13) \<Rightarrow>
      case dec_opt dec_str t13 of (f14, t14) \<Rightarrow>
      case dec_str t14 of (f15, t15) \<Rightarrow>
      case dec_int t15 of (f16, t16) \<Rightarrow>
      case dec_int t16 of (f17, t17) \<Rightarrow>
      case dec_opt dec_int t17 of (f18, t18) \<Rightarrow>
        (\<lparr>bill_id = f1, imageUrl = f2, customerName = f3, address = f4, invoiceNo = f5,
          billDate = f6, status = (if f7 then PACKED else PENDING), isDelivery = f8, hasCRN = f9,
          isEditedBill = f10, isAdditionalBill = f11, boxCount = f12, description = f13,
          colorTheme = f14, entryDate = f15, createdAt = f16, updatedAt = f17, packedAt = f18\<rparr>,
         t18))"

fun dec_bills :: "nat \<Rightarrow> string \<Rightarrow> BillData list" where
  "dec_bills 0 t = []"
| "dec_bills (Suc n) t = (case dec_bill t of (b, r) \<Rightarrow> b # dec_bills n r)"

definition demo_stringify :: "BillData list \<Rightarrow> string" where
  "demo_stringify bs = enc_nat (length bs) @ concat (map enc_bill bs)"

definition demo_parse :: "string \<Rightarrow> BillData list option" where
  "demo_parse t =
     (case dec_nat t of (n, r) \<Rightarrow>
        (let bs = dec_bills n r in if demo_stringify bs = t then Some bs else None))"

definition demoPlatform :: Platform where
  "demoPlatform = \<lparr>JSON_stringify = demo_stringify, JSON_parse = demo_parse, quota = 100000\<rparr>"

text \<open>The same platform with a storage area that accepts nothing more.\<close>

definition fullPlatform :: Platform where
  "fullPlatform = demoPlatform\<lparr>quota := 0\<rparr>"

subsection \<open>Concrete records and states\<close>

text \<open>
  \<open>billA\<close> is held locally and \<open>billA'\<close> is a newer remote copy of it; \<open>billB\<close> exists
  only locally and \<open>billC\<close> only remotely.
\<close>

definition billA :: BillData where
  "billA = \<lparr>bill_id = ''1'', imageUrl = Some [], customerName = ''Asha Stores'',
     address = ''Kochi'', invoiceNo = ''inv-001'', billDate = ''2026-01-05'', status = PENDING,
     isDelivery = False, hasCRN = False, isEditedBill = False, isAdditionalBill = False,
     boxCount = 2, description = ''Asha'', colorTheme = None, entryDate = ''2026-01-05'',
     createdAt = 50, updatedAt = 100, packedAt = None\<rparr>"

definition billA' :: BillData where
  "billA' = billA\<lparr>status := PACKED, updatedAt := 200, packedAt := Some 200\<rparr>"

definition billB :: BillData where
  "billB = billA\<lparr>bill_id := ''2'', invoiceNo := ''INV-5'', createdAt := 60, updatedAt := 100\<rparr>"

definition billC :: BillData where
  "billC = billA\<lparr>bill_id := ''3'', invoiceNo := ''INV-7'', createdAt := 70, updatedAt := 300\<rparr>"

definition client0 :: SupabaseClient where
  "client0 = \<lparr>bills_table = [payloadOf billA', payloadOf billC], reachable = True, requests = []\<rparr>"

definition world0 :: World where
  "world0 = \<lparr>localStorage = [(STORAGE_KEY, demo_stringify [billA, billB])],
              supabase = Some client0, alerts = []\<rparr>"

definition app0 :: App where
  "app0 = \<lparr>allBills = [billA, billB], currentDate = ''2026-01-05'', loadingId = None,
            processStatus = [], expandedId = None, isSelectionMode = True,
            selectedIds = {''1''}, showGroupModal = False, groupNameInput = ''Asha'',
            groupColorInput = ''blue'', duplicateAlert = None, isCloudConnectedState = True,
            isSyncing = False\<rparr>"

section \<open>Invariant of the merge map\<close>

text \<open>No key occurs twice, and every record is stored under its own \<open>bill_id\<close>.\<close>

definition keyed :: "(string \<times> BillData) list \<Rightarrow> bool" where
  "keyed m = (distinct (map fst m) \<and> (\<forall>(k, v) \<in> set m. bill_id v = k))"

section \<open>Stamping\<close>

text \<open>
  \<open>stampedWith now target before after\<close>: the two lists have the same length, and every record
  of \<open>before\<close> that is a target has \<open>updatedAt = now\<close> at the same position of \<open>after\<close>, which
  is a strictly greater value when \<open>now\<close> is greater than the one it had.
\<close>

definition stampedWith :: "int \<Rightarrow> (BillData \<Rightarrow> bool) \<Rightarrow> BillData list \<Rightarrow> BillData list \<Rightarrow> bool" where
  "stampedWith now target before after \<longleftrightarrow>
     length after = length before \<and>
     (\<forall>i<length before. target (before ! i) \<longrightarrow>
        updatedAt (after ! i) = now \<and>
        (updatedAt (before ! i) < now \<longrightarrow> updatedAt (before ! i) < updatedAt (after ! i)))"

section \<open>The merge map\<close>

text \<open>
  Both loops of the merge keep the map \<open>keyed\<close>; its keys are the local ids together with
  the remote ids; and the entry of an id found on both sides is decided by \<open>updatedAt\<close>.
\<close>

lemma set_update_subset: "set (AList.update k v m) \<subseteq> insert (k, v) (set m)"
  by (induction m) auto

lemma keyed_Nil: "keyed []"
  by (simp add: keyed_def)

lemma keyed_update: "keyed m \<Longrightarrow> keyed (AList.update (bill_id b) b m)"
  unfolding keyed_def
  using set_update_subset [of "bill_id b" b m] by (auto simp: distinct_update)

lemma keyed_mergeRemote: "keyed m \<Longrightarrow> keyed (mergeRemote r m)"
  by (simp add: mergeRemote_def keyed_update split: option.split)

lemma keys_mergeRemote: "fst ` set (mergeRemote r m) = insert (bill_id r) (fst ` set m)"
  by (auto simp: mergeRemote_def dom_update split: option.split dest: map_of_SomeD
      intro: rev_image_eqI)

lemma keyed_fold_local: "keyed m \<Longrightarrow> keyed (fold (\<lambda>b m. AList.update (bill_id b) b m) bs m)"
  by (induction bs arbitrary: m) (simp_all add: keyed_update)

lemma keys_fold_local:
  "fst ` set (fold (\<lambda>b m. AList.update (bill_id b) b m) bs m) = fst ` set m \<union> bill_id ` set bs"
  by (induction bs arbitrary: m) (auto simp: dom_update)

lemma keyed_fold_remote: "keyed m \<Longrightarrow> keyed (fold mergeRemote rs m)"
  by (induction rs arbitrary: m) (simp_all add: keyed_mergeRemote)

lemma keys_fold_remote:
  "fst ` set (fold mergeRemote rs m) = fst ` set m \<union> bill_id ` set rs"
  by (induction rs arbitrary: m) (auto simp: keys_mergeRemote)

lemma keyed_mergedMapOf: "keyed (mergedMapOf ls rs)"
  unfolding mergedMapOf_def by (intro keyed_fold_remote keyed_fold_local keyed_Nil)

lemma keys_mergedMapOf: "fst ` set (mergedMapOf ls rs) = bill_id ` set ls \<union> bill_id ` set rs"
  by (simp add: mergedMapOf_def keys_fold_remote keys_fold_local)

lemma keyed_ids: "keyed m \<Longrightarrow> map bill_id (map snd m) = map fst m"
  by (induction m) (auto simp: keyed_def)

lemma ids_mergedBillsOf:
  "mset (map bill_id (mergedBillsOf ls rs)) = mset (map fst (mergedMapOf ls rs))"
proof -
  have "mset (map bill_id (mergedBillsOf ls rs)) = mset (map bill_id (map snd (mergedMapOf ls rs)))"
    unfolding mergedBillsOf_def by (simp only: mset_map mset_sort)
  then show ?thesis by (simp only: keyed_ids [OF keyed_mergedMapOf])
qed

lemma distinct_ids_mergedBillsOf: "distinct (map bill_id (mergedBillsOf ls rs))"
proof -
  have "distinct (map fst (mergedMapOf ls rs))"
    using keyed_mergedMapOf [of ls rs] by (simp add: keyed_def)
  then show ?thesis
    using ids_mergedBillsOf [of ls rs] by (metis mset_eq_imp_distinct_iff)
qed

lemma set_ids_mergedBillsOf:
  "bill_id ` set (mergedBillsOf ls rs) = bill_id ` set ls \<union> bill_id ` set rs"
proof -
  have "set (map bill_id (mergedBillsOf ls rs)) = set (map fst (mergedMapOf ls rs))"
    using ids_mergedBillsOf [of ls rs] by (rule mset_eq_setD)
  then show ?thesis by (simp add: keys_mergedMapOf)
qed


lemma filter_unique:
  "distinct (map f xs) \<Longrightarrow> x \<in> set xs \<Longrightarrow> filter (\<lambda>y. f y = f x) xs = [x]"
proof (induction xs)
  case Nil
  then show ?case by simp
next
  case (Cons a xs)
  show ?case
  proof (cases "x = a")
    case True
    have "f a \<notin> f ` set xs"
      using Cons.prems(1) by simp
    then have "\<forall>y\<in>set xs. f y \<noteq> f a"
      by (metis imageI)
    then have "filter (\<lambda>y. f y = f a) xs = []"
      unfolding filter_empty_conv by simp
    then show ?thesis unfolding True by simp
  next
    case False
    with Cons.prems have "x \<in> set xs" and "f a \<noteq> f x" by auto
    with Cons show ?thesis by simp
  qed
qed

lemma map_of_fold_local_other:
  "k \<notin> bill_id ` set bs \<Longrightarrow>
   map_of (fold (\<lambda>b m. AList.update (bill_id b) b m) bs m) k = map_of m k"
  by (induction bs arbitrary: m) (auto simp: update_conv')

lemma map_of_fold_local:
  "distinct (map bill_id bs) \<Longrightarrow> l \<in> set bs \<Longrightarrow>
   map_of (fold (\<lambda>b m. AList.update (bill_id b) b m) bs m) (bill_id l) = Some l"
proof (induction bs arbitrary: m)
  case Nil
  then show ?case by simp
next
  case (Cons a bs)
  show ?case
  proof (cases "l = a")
    case True
    have "bill_id a \<notin> bill_id ` set bs"
      using Cons.prems(1) by simp
    then show ?thesis
      unfolding True by (simp add: map_of_fold_local_other update_conv')
  next
    case False
    with Cons show ?thesis by simp
  qed
qed

lemma map_of_mergeRemote:
  "map_of (mergeRemote r m) k =
     (if k = bill_id r
      then (case map_of m k of
              None \<Rightarrow> Some r
            | Some l \<Rightarrow> Some (if updatedAt r > updatedAt l then r else l))
      else map_of m k)"
  by (simp add: mergeRemote_def update_conv' split: option.split)

lemma map_of_fold_remote_other:
  "k \<notin> bill_id ` set rs \<Longrightarrow> map_of (fold mergeRemote rs m) k = map_of m k"
  by (induction rs arbitrary: m) (auto simp: map_of_mergeRemote)

lemma map_of_fold_remote:
  "distinct (map bill_id rs) \<Longrightarrow> r \<in> set rs \<Longrightarrow>
   map_of (fold mergeRemote rs m) (bill_id r) =
     (case map_of m (bill_id r) of
        None \<Rightarrow> Some r
      | Some l \<Rightarrow> Some (if updatedAt r > updatedAt l then r else l))"
proof (induction rs arbitrary: m)
  case Nil
  then show ?case by simp
next
  case (Cons a rs)
  show ?case
  proof (cases "r = a")
    case True
    have "bill_id a \<notin> bill_id ` set rs"
      using Cons.prems(1) by simp
    then show ?thesis
      unfolding True by (simp add: map_of_fold_remote_other map_of_mergeRemote)
  next
    case False
    with Cons.prems have "r \<in> set rs" and "bill_id a \<noteq> bill_id r" by auto
    with Cons show ?thesis by (simp add: map_of_mergeRemote)
  qed
qed

lemma map_of_mergedMapOf_both:
  assumes "distinct (map bill_id ls)" "distinct (map bill_id rs)"
    and "l \<in> set ls" "r \<in> set rs" "bill_id l = bill_id r"
  shows "map_of (mergedMapOf ls rs) (bill_id r) = Some (if updatedAt r > updatedAt l then r else l)"
proof -
  have "map_of (fold (\<lambda>b m. AList.update (bill_id b) b m) ls []) (bill_id r) = Some l"
    using map_of_fold_local [OF assms(1,3), of "[]"] assms(5) by simp
  then show ?thesis
    unfolding mergedMapOf_def by (simp add: map_of_fold_remote [OF assms(2,4)])
qed

lemma map_of_in_mergedBillsOf:
  "map_of (mergedMapOf ls rs) k = Some v \<Longrightarrow> v \<in> set (mergedBillsOf ls rs) \<and> bill_id v = k"
proof -
  assume "map_of (mergedMapOf ls rs) k = Some v"
  then have "(k, v) \<in> set (mergedMapOf ls rs)" by (rule map_of_SomeD)
  moreover from this have "bill_id v = k"
    using keyed_mergedMapOf [of ls rs] by (auto simp: keyed_def)
  ultimately show ?thesis
    by (force simp: mergedBillsOf_def)
qed

lemma merged_lww:
  assumes "distinct (map bill_id ls)" "distinct (map bill_id rs)"
    and "l \<in> set ls" "r \<in> set rs" "bill_id l = bill_id r"
  shows "filter (\<lambda>b. bill_id b = bill_id l) (mergedBillsOf ls rs) =
           [if updatedAt r > updatedAt l then r else l]"
proof -
  let ?v = "if updatedAt r > updatedAt l then r else l"
  have v: "?v \<in> set (mergedBillsOf ls rs)" and "bill_id ?v = bill_id r"
    using map_of_in_mergedBillsOf [OF map_of_mergedMapOf_both [OF assms]] by simp_all
  then have "bill_id ?v = bill_id l" using assms(5) by simp
  with filter_unique [OF distinct_ids_mergedBillsOf v] show ?thesis
    by simp
qed

section \<open>The local store\<close>

lemma getStoredBills_supabase [simp]:
  "getStoredBills P (w\<lparr>supabase := x\<rparr>) = getStoredBills P w"
  by (simp add: getStoredBills_def)

lemma getStoredBills_localStorage:
  "localStorage w' = localStorage w \<Longrightarrow> getStoredBills P w' = getStoredBills P w"
  by (simp add: getStoredBills_def)

lemma saveBillsToStorage_supabase [simp]:
  "supabase (saveBillsToStorage P bills w) = supabase w"
  by (simp add: saveBillsToStorage_def split: sum.split)

lemma saveBillsToStorage_accepted:
  "writeAccepted P bills w \<Longrightarrow>
   localStorage (saveBillsToStorage P bills w) =
     AList.update STORAGE_KEY (JSON_stringify P bills) (localStorage w)"
  by (auto simp: writeAccepted_def saveBillsToStorage_def setItem_def Let_def
      split: sum.splits if_splits)

lemma getStoredBills_after_save:
  assumes "writeAccepted P bills w" and "jsonRoundTrips P bills"
  shows "getStoredBills P (saveBillsToStorage P bills w) = bills"
  using assms(2)
  by (simp add: getStoredBills_def getItem_def saveBillsToStorage_accepted [OF assms(1)]
      update_conv' jsonRoundTrips_def)

lemma saveBillsToStorage_rejected:
  assumes "\<not> writeAccepted P bills w"
  shows "saveBillsToStorage P bills w =
           w\<lparr>alerts := alerts w @ [''Storage full! Please delete some old bills or images.'']\<rparr>"
  using assms by (simp add: writeAccepted_def saveBillsToStorage_def split: sum.splits)

section \<open>The push loop\<close>

lemma syncUpItem_localStorage [simp]: "localStorage (syncUpItem b w) = localStorage w"
  by (simp add: syncUpItem_def split: option.split)

lemma syncUpItem_alerts [simp]: "alerts (syncUpItem b w) = alerts w"
  by (simp add: syncUpItem_def split: option.split)

lemma syncUpItem_requests:
  "supabase w = Some c \<Longrightarrow>
   \<exists>c'. supabase (syncUpItem b w) = Some c' \<and> requests c' = requests c @ [Upsert (payloadOf b)]"
  by (simp add: syncUpItem_def from_bills_upsert_def Let_def)

lemma push_loop_localStorage:
  "localStorage (fold (\<lambda>bill v. if needsPush rem bill then syncUpItem bill v else v) bs w) =
     localStorage w"
  by (induction bs arbitrary: w) simp_all

lemma push_loop_alerts:
  "alerts (fold (\<lambda>bill v. if needsPush rem bill then syncUpItem bill v else v) bs w) = alerts w"
  by (induction bs arbitrary: w) simp_all

lemma push_loop_requests:
  "supabase w = Some c \<Longrightarrow>
   \<exists>c'. supabase (fold (\<lambda>bill v. if needsPush rem bill then syncUpItem bill v else v) bs w) = Some c'
      \<and> requests c' = requests c @ map (\<lambda>b. Upsert (payloadOf b)) (filter (needsPush rem) bs)"
proof (induction bs arbitrary: w c)
  case Nil
  then show ?case by simp
next
  case (Cons b bs)
  show ?case
  proof (cases "needsPush rem b")
    case True
    from syncUpItem_requests [OF Cons.prems, of b] obtain c1
      where c1: "supabase (syncUpItem b w) = Some c1"
        and r1: "requests c1 = requests c @ [Upsert (payloadOf b)]" by blast
    from Cons.IH [OF c1] True r1 show ?thesis by simp
  next
    case False
    with Cons.IH [OF Cons.prems] show ?thesis by simp
  qed
qed

section \<open>fullSync: the three ways through it\<close>

lemma fullSync_disconnected:
  "supabase w = None \<Longrightarrow> fullSync P w = (getStoredBills P w, w)"
  by (simp add: fullSync_def)

lemma fullSync_fetch_failed:
  "supabase w = Some c \<Longrightarrow> \<not> reachable c \<Longrightarrow>
   fullSync P w = (getStoredBills P w, w\<lparr>supabase := Some (c\<lparr>requests := requests c @ [Select]\<rparr>)\<rparr>)"
  by (simp add: fullSync_def from_bills_select_def)

lemma fullSync_fetched:
  assumes "supabase w = Some c" and "reachable c"
  shows "fullSync P w =
    (let remoteBills = map data (bills_table c);
         mergedBills = mergedBillsOf (getStoredBills P w) remoteBills
     in (mergedBills,
         fold (\<lambda>bill v. if needsPush remoteBills bill then syncUpItem bill v else v) mergedBills
           (saveBillsToStorage P mergedBills
              (w\<lparr>supabase := Some (c\<lparr>requests := requests c @ [Select]\<rparr>)\<rparr>))))"
  using assms by (simp add: fullSync_def from_bills_select_def Let_def)

lemma fullSync_returns_merged:
  "supabase w = Some c \<Longrightarrow> reachable c \<Longrightarrow>
   fst (fullSync P w) = mergedBillsOf (getStoredBills P w) (map data (bills_table c))"
  by (simp add: fullSync_fetched Let_def)

lemma fullSync_writes_merged:
  assumes "supabase w = Some c" and "reachable c"
  shows "localStorage (snd (fullSync P w)) =
           localStorage (saveBillsToStorage P (fst (fullSync P w)) w)"
proof -
  have "localStorage (saveBillsToStorage P bs (w\<lparr>supabase := x\<rparr>)) =
          localStorage (saveBillsToStorage P bs w)" for bs x
    by (simp add: saveBillsToStorage_def split: sum.split)
  then show ?thesis
    by (simp add: fullSync_fetched [OF assms] Let_def push_loop_localStorage)
qed

lemma fullSync_requests:
  assumes "supabase w = Some c" and "reachable c"
  shows "requestsDuring w (snd (fullSync P w)) =
           Select # map (\<lambda>b. Upsert (payloadOf b))
                      (filter (needsPush (map data (bills_table c))) (fst (fullSync P w)))"
proof -
  let ?rem = "map data (bills_table c)"
  let ?m = "mergedBillsOf (getStoredBills P w) ?rem"
  let ?w1 = "saveBillsToStorage P ?m (w\<lparr>supabase := Some (c\<lparr>requests := requests c @ [Select]\<rparr>)\<rparr>)"
  have "supabase ?w1 = Some (c\<lparr>requests := requests c @ [Select]\<rparr>)" by simp
  from push_loop_requests [OF this, of ?rem ?m] obtain c'
    where "supabase (fold (\<lambda>bill v. if needsPush ?rem bill then syncUpItem bill v else v) ?m ?w1) = Some c'"
      and "requests c' = requests c @ Select # map (\<lambda>b. Upsert (payloadOf b)) (filter (needsPush ?rem) ?m)"
    by auto
  then show ?thesis
    by (simp add: fullSync_fetched [OF assms] Let_def requestsDuring_def assms(1))
qed

section \<open>The concrete platform and states\<close>

lemma dec_enc_nat: "dec_nat (enc_nat n @ r) = (n, r)"
  by (induction n) (simp_all add: dec_nat_def enc_nat_def)

lemma dec_enc_str: "dec_str (enc_str s @ r) = (s, r)"
  by (simp add: dec_str_def enc_str_def dec_enc_nat)

lemma dec_enc_int: "dec_int (enc_int i @ r) = (i, r)"
  by (simp add: dec_int_def enc_int_def dec_enc_nat)

lemma dec_enc_bool: "dec_bool (enc_bool b @ r) = (b, r)"
  by (simp add: dec_bool_def enc_bool_def)

lemma dec_enc_opt:
  "(\<And>v r. d (e v @ r) = (v, r)) \<Longrightarrow> dec_opt d (enc_opt e x @ r) = (x, r)"
  by (cases x) (simp_all add: dec_opt_def enc_opt_def)

lemma dec_enc_bill: "dec_bill (enc_bill b @ r) = (b, r)"
  by (cases b, cases "status b")
     (simp_all add: dec_bill_def enc_bill_def dec_enc_str dec_enc_int dec_enc_bool
        dec_enc_opt [of dec_str enc_str, OF dec_enc_str]
        dec_enc_opt [of dec_int enc_int, OF dec_enc_int])

lemma dec_enc_bills: "dec_bills (length bs) (concat (map enc_bill bs) @ r) = bs"
  by (induction bs) (simp_all add: dec_enc_bill)

lemma demo_parse_stringify: "demo_parse (demo_stringify bs) = Some bs"
  using dec_enc_bills [of bs "[]"]
  by (simp add: demo_parse_def dec_enc_nat demo_stringify_def [of bs])

lemma demo_stringify_nonempty: "demo_stringify bs \<noteq> []"
  by (simp add: demo_stringify_def enc_nat_def)

lemma demoPlatform_roundTrips: "jsonRoundTrips demoPlatform bs"
  by (simp add: jsonRoundTrips_def demoPlatform_def demo_parse_stringify demo_stringify_nonempty)

lemma world0_stored: "getStoredBills demoPlatform world0 = [billA, billB]"
  by (simp add: getStoredBills_def getItem_def world0_def demoPlatform_def demo_parse_stringify
      demo_stringify_nonempty)

lemma world0_stored_full: "getStoredBills fullPlatform world0 = [billA, billB]"
  by (simp add: getStoredBills_def getItem_def world0_def fullPlatform_def demoPlatform_def
      demo_parse_stringify demo_stringify_nonempty)

lemma world0_remote: "map data (bills_table client0) = [billA', billC]"
  by (simp add: client0_def payloadOf_def)

lemma bill_ids:
  "bill_id billA = ''1''" "bill_id billA' = ''1''" "bill_id billB = ''2''" "bill_id billC = ''3''"
  by (simp_all add: billA_def billA'_def billB_def billC_def)

lemma bill_stamps:
  "updatedAt billA = 100" "updatedAt billA' = 200" "updatedAt billB = 100" "updatedAt billC = 300"
  "createdAt billA = 50" "createdAt billA' = 50" "createdAt billB = 60" "createdAt billC = 70"
  by (simp_all add: billA_def billA'_def billB_def billC_def)

lemma world0_merged:
  "mergedBillsOf [billA, billB] [billA', billC] = [billC, billB, billA']"
  by (simp add: mergedBillsOf_def mergedMapOf_def mergeRemote_def bill_ids bill_stamps)

section \<open>Claims about fullSync\<close>

text \<open>
  C10. When the remote is connected and the fetch succeeds, the merged list that
  \<open>fullSync\<close> returns holds at most one record per id, its ids are exactly the ids found
  locally together with the ids found remotely, and this same list is what is written
  back to the local store.
\<close>

theorem fullSync_merged_ids:
  assumes "supabase w = Some c" and "reachable c"
  shows "distinct (map bill_id (fst (fullSync P w)))
       \<and> set (map bill_id (fst (fullSync P w))) =
           set (map bill_id (getStoredBills P w)) \<union> set (map bill_id (map data (bills_table c)))
       \<and> localStorage (snd (fullSync P w)) =
           localStorage (saveBillsToStorage P (fst (fullSync P w)) w)"
proof -
  have m: "fst (fullSync P w) = mergedBillsOf (getStoredBills P w) (map data (bills_table c))"
    using assms by (rule fullSync_returns_merged)
  have "distinct (map bill_id (fst (fullSync P w)))"
    unfolding m by (rule distinct_ids_mergedBillsOf)
  moreover have "set (map bill_id (fst (fullSync P w))) =
      set (map bill_id (getStoredBills P w)) \<union> set (map bill_id (map data (bills_table c)))"
    unfolding m using set_ids_mergedBillsOf [of "getStoredBills P w" "map data (bills_table c)"]
    by (simp only: set_map)
  moreover note fullSync_writes_merged [OF assms, of P]
  ultimately show ?thesis by blast
qed

theorem fullSync_merged_ids_witness:
  "distinct (map bill_id (fst (fullSync demoPlatform world0)))
   \<and> set (map bill_id (fst (fullSync demoPlatform world0))) = {''1'', ''2'', ''3''}"
proof -
  have "supabase world0 = Some client0" by (simp add: world0_def)
  moreover have "reachable client0" by (simp add: client0_def)
  ultimately show ?thesis
    using fullSync_merged_ids [where w = world0 and c = client0 and P = demoPlatform]
    by (auto simp: world0_stored world0_remote bill_ids)
qed

text \<open>
  C1. Last writer wins. Let the remote be connected and the fetch succeed, and let ids be
  unique within the local collection and within the remote collection. If \<open>l\<close> is the
  local record and \<open>r\<close> the remote record of the same id, then the merged list returned
  by \<open>fullSync\<close> holds exactly one record with that id: \<open>r\<close> when \<open>r\<close>'s \<open>updatedAt\<close> is
  strictly greater than \<open>l\<close>'s, and \<open>l\<close> otherwise, in particular when the two are equal.
\<close>

theorem fullSync_merge_lww:
  assumes "supabase w = Some c" and "reachable c"
    and "distinct (map bill_id (getStoredBills P w))"
    and "distinct (map bill_id (map data (bills_table c)))"
    and "l \<in> set (getStoredBills P w)"
    and "r \<in> set (map data (bills_table c))"
    and "bill_id l = bill_id r"
  shows "filter (\<lambda>b. bill_id b = bill_id l) (fst (fullSync P w)) =
           [if updatedAt r > updatedAt l then r else l]"
  unfolding fullSync_returns_merged [OF assms(1,2)]
  using assms(3-7) by (rule merged_lww)

theorem fullSync_merge_lww_witness:
  "filter (\<lambda>b. bill_id b = ''1'') (fst (fullSync demoPlatform world0)) = [billA']"
proof -
  have "supabase world0 = Some client0" by (simp add: world0_def)
  moreover have "reachable client0" by (simp add: client0_def)
  ultimately show ?thesis
    using fullSync_merge_lww [where w = world0 and c = client0 and P = demoPlatform
        and l = billA and r = billA']
    by (simp add: world0_stored world0_remote bill_ids bill_stamps)
qed

text \<open>
  C3. If the remote is not connected, or the fetch fails, \<open>fullSync\<close> returns the content
  of the local store and leaves it as it was: \<^verbatim>\<open>localStorage\<close> is untouched, no alert is
  raised and nothing is pushed.
\<close>

theorem fullSync_remote_unavailable:
  assumes "supabase w = None \<or> (\<exists>c. supabase w = Some c \<and> \<not> reachable c)"
  shows "fst (fullSync P w) = getStoredBills P w
       \<and> localStorage (snd (fullSync P w)) = localStorage w
       \<and> getStoredBills P (snd (fullSync P w)) = getStoredBills P w
       \<and> alerts (snd (fullSync P w)) = alerts w
       \<and> (\<forall>p. Upsert p \<notin> set (requestsDuring w (snd (fullSync P w))))"
  using assms
proof
  assume "supabase w = None"
  then show ?thesis
    by (simp add: fullSync_disconnected requestsDuring_def)
next
  assume "\<exists>c. supabase w = Some c \<and> \<not> reachable c"
  then obtain c where c: "supabase w = Some c" "\<not> reachable c" by blast
  show ?thesis
    by (simp add: fullSync_fetch_failed [OF c] requestsDuring_def c(1))
qed

theorem fullSync_remote_unavailable_witness:
  "fst (fullSync demoPlatform (world0\<lparr>supabase := None\<rparr>)) = [billA, billB]
   \<and> localStorage (snd (fullSync demoPlatform (world0\<lparr>supabase := None\<rparr>))) = localStorage world0
   \<and> fst (fullSync demoPlatform (world0\<lparr>supabase := Some (client0\<lparr>reachable := False\<rparr>)\<rparr>)) =
       [billA, billB]
   \<and> localStorage (snd (fullSync demoPlatform
         (world0\<lparr>supabase := Some (client0\<lparr>reachable := False\<rparr>)\<rparr>))) = localStorage world0"
  using fullSync_remote_unavailable [where w = "world0\<lparr>supabase := None\<rparr>" and P = demoPlatform]
    fullSync_remote_unavailable
      [where w = "world0\<lparr>supabase := Some (client0\<lparr>reachable := False\<rparr>)\<rparr>" and P = demoPlatform]
  by (simp add: world0_stored)

lemma find_unique:
  "distinct (map f xs) \<Longrightarrow> x \<in> set xs \<Longrightarrow> find (\<lambda>y. f y = f x) xs = Some x"
proof (induction xs)
  case Nil
  then show ?case by simp
next
  case (Cons a xs)
  show ?case
  proof (cases "f a = f x")
    case True
    have "f a \<notin> f ` set xs" using Cons.prems(1) by simp
    with True Cons.prems(2) have "x = a" by (metis imageI set_ConsD)
    then show ?thesis by simp
  next
    case False
    with Cons show ?thesis by auto
  qed
qed

lemma payloadOf_eq_iff: "payloadOf b = payloadOf b' \<longleftrightarrow> b = b'"
  by (auto simp: payloadOf_def)

lemma upsert_in_pushes:
  "Upsert p \<in> set (Select # map (\<lambda>b. Upsert (payloadOf b)) bs) \<longleftrightarrow> (\<exists>b\<in>set bs. p = payloadOf b)"
  by auto

lemma find_Some_holds: "find p xs = Some x \<Longrightarrow> x \<in> set xs \<and> p x"
  by (induction xs) (auto split: if_splits)

lemma needsPush_iff:
  "needsPush rem b \<longleftrightarrow>
     (\<forall>r\<in>set rem. bill_id r \<noteq> bill_id b) \<or>
     (\<exists>r. find (\<lambda>r. bill_id r = bill_id b) rem = Some r \<and> updatedAt b > updatedAt r)"
  by (auto simp: needsPush_def find_None_iff split: option.split dest: find_Some_holds)

lemma merged_winner_not_pushed:
  assumes "distinct (map bill_id rs)" and "r \<in> set rs"
  shows "\<not> needsPush rs r"
  using find_unique [OF assms] by (simp add: needsPush_def)

text \<open>
  C2. When the remote is connected and the fetch succeeds, a record of the merged list is
  pushed (an upsert of its payload is sent) if and only if no remote record has its id, or
  its \<open>updatedAt\<close> is strictly greater than that of the remote record with its id; and
  nothing but merged records is pushed. In particular, with ids unique on each side, if
  the local store holds \<open>l\<close> and the remote holds \<open>r\<close> with the same id and a greater
  \<open>updatedAt\<close> (100 and 200, say), then \<open>r\<close> is in the list written to the local store, it
  is read back from the store whenever the write is accepted and the JSON text reads back,
  and no upsert is sent for that id.
\<close>

theorem fullSync_push_rule:
  assumes "supabase w = Some c" and "reachable c"
  shows "(\<forall>b\<in>set (fst (fullSync P w)).
            Upsert (payloadOf b) \<in> set (requestsDuring w (snd (fullSync P w))) \<longleftrightarrow>
              (\<forall>r\<in>set (map data (bills_table c)). bill_id r \<noteq> bill_id b) \<or>
              (\<exists>r. find (\<lambda>r. bill_id r = bill_id b) (map data (bills_table c)) = Some r
                   \<and> updatedAt b > updatedAt r))
       \<and> (\<forall>p. Upsert p \<in> set (requestsDuring w (snd (fullSync P w))) \<longrightarrow>
                (\<exists>b\<in>set (fst (fullSync P w)). p = payloadOf b))
       \<and> (\<forall>l r. distinct (map bill_id (getStoredBills P w))
                \<and> distinct (map bill_id (map data (bills_table c)))
                \<and> l \<in> set (getStoredBills P w) \<and> r \<in> set (map data (bills_table c))
                \<and> bill_id l = bill_id r \<and> updatedAt l < updatedAt r \<longrightarrow>
              r \<in> set (fst (fullSync P w))
            \<and> localStorage (snd (fullSync P w)) =
                localStorage (saveBillsToStorage P (fst (fullSync P w)) w)
            \<and> (writeAccepted P (fst (fullSync P w)) w \<and> jsonRoundTrips P (fst (fullSync P w)) \<longrightarrow>
                  r \<in> set (getStoredBills P (snd (fullSync P w))))
            \<and> (\<forall>p. Upsert p \<in> set (requestsDuring w (snd (fullSync P w))) \<longrightarrow>
                  row_id p \<noteq> bill_id l))"
proof -
  let ?rem = "map data (bills_table c)"
  let ?m = "fst (fullSync P w)"
  let ?reqs = "requestsDuring w (snd (fullSync P w))"
  have reqs: "?reqs = Select # map (\<lambda>b. Upsert (payloadOf b)) (filter (needsPush ?rem) ?m)"
    using assms by (rule fullSync_requests)
  have written: "localStorage (snd (fullSync P w)) = localStorage (saveBillsToStorage P ?m w)"
    using assms by (rule fullSync_writes_merged)
  have pushed: "Upsert (payloadOf b) \<in> set ?reqs \<longleftrightarrow> b \<in> set ?m \<and> needsPush ?rem b" for b
    unfolding reqs upsert_in_pushes by (auto simp: payloadOf_eq_iff)
  have part1: "\<forall>b\<in>set ?m. Upsert (payloadOf b) \<in> set ?reqs \<longleftrightarrow>
      (\<forall>r\<in>set ?rem. bill_id r \<noteq> bill_id b) \<or>
      (\<exists>r. find (\<lambda>r. bill_id r = bill_id b) ?rem = Some r \<and> updatedAt b > updatedAt r)"
    using pushed needsPush_iff [of ?rem] by blast
  have part2: "\<forall>p. Upsert p \<in> set ?reqs \<longrightarrow> (\<exists>b\<in>set ?m. p = payloadOf b)"
    unfolding reqs upsert_in_pushes by auto
  have part3: "r \<in> set ?m
      \<and> localStorage (snd (fullSync P w)) = localStorage (saveBillsToStorage P ?m w)
      \<and> (writeAccepted P ?m w \<and> jsonRoundTrips P ?m \<longrightarrow> r \<in> set (getStoredBills P (snd (fullSync P w))))
      \<and> (\<forall>p. Upsert p \<in> set ?reqs \<longrightarrow> row_id p \<noteq> bill_id l)"
    if h: "distinct (map bill_id (getStoredBills P w))" "distinct (map bill_id ?rem)"
      "l \<in> set (getStoredBills P w)" "r \<in> set ?rem" "bill_id l = bill_id r"
      and newer: "updatedAt l < updatedAt r" for l r
  proof -
    have only: "filter (\<lambda>b. bill_id b = bill_id l) ?m = [r]"
      unfolding fullSync_returns_merged [OF assms] using merged_lww [OF h] newer by simp
    then have "r \<in> set (filter (\<lambda>b. bill_id b = bill_id l) ?m)" by simp
    then have r_in: "r \<in> set ?m" by simp
    have stored: "r \<in> set (getStoredBills P (snd (fullSync P w)))"
      if "writeAccepted P ?m w" "jsonRoundTrips P ?m"
    proof -
      have "getStoredBills P (snd (fullSync P w)) = getStoredBills P (saveBillsToStorage P ?m w)"
        using written by (rule getStoredBills_localStorage)
      also have "\<dots> = ?m" using that by (rule getStoredBills_after_save)
      finally show ?thesis using r_in by simp
    qed
    have no_push: "row_id p \<noteq> bill_id l" if "Upsert p \<in> set ?reqs" for p
    proof
      assume same: "row_id p = bill_id l"
      from that obtain b where b: "b \<in> set ?m" "needsPush ?rem b" "p = payloadOf b"
        unfolding reqs upsert_in_pushes by auto
      with same have "bill_id b = bill_id l" by (simp add: payloadOf_def)
      with b(1) have "b \<in> set (filter (\<lambda>b. bill_id b = bill_id l) ?m)" by simp
      then have "b = r" unfolding only by simp
      with b(2) merged_winner_not_pushed [OF h(2,4)] show False by simp
    qed
    from r_in written stored no_push show ?thesis by blast
  qed
  from part1 part2 part3 show ?thesis by blast
qed

lemma length_enc_nat: "length (enc_nat n) = Suc n"
  by (simp add: enc_nat_def)

lemma length_enc_str: "length (enc_str s) = Suc (2 * length s)"
  by (simp add: enc_str_def length_enc_nat)

lemma length_enc_int: "length (enc_int i) = Suc (Suc (nat \<bar>i\<bar>))"
  by (simp add: enc_int_def length_enc_nat)

lemma length_enc_bool: "length (enc_bool b) = 1"
  by (simp add: enc_bool_def)

lemma world0_room: "length (demo_stringify [billC, billB, billA']) \<le> 2000"
  by (simp add: demo_stringify_def enc_bill_def length_enc_nat length_enc_str length_enc_int
      length_enc_bool enc_opt_def billA_def billA'_def billB_def billC_def)

lemma world0_accepts: "writeAccepted demoPlatform [billC, billB, billA'] world0"
  using world0_room
  by (simp add: writeAccepted_def setItem_def storageSize_def world0_def STORAGE_KEY_def
      demoPlatform_def)

theorem fullSync_push_rule_witness:
  "billA' \<in> set (fst (fullSync demoPlatform world0))
   \<and> billA' \<in> set (getStoredBills demoPlatform (snd (fullSync demoPlatform world0)))
   \<and> Upsert (payloadOf billA') \<notin> set (requestsDuring world0 (snd (fullSync demoPlatform world0)))
   \<and> Upsert (payloadOf billB) \<in> set (requestsDuring world0 (snd (fullSync demoPlatform world0)))
   \<and> Upsert (payloadOf billC) \<notin> set (requestsDuring world0 (snd (fullSync demoPlatform world0)))"
proof -
  have c: "supabase world0 = Some client0" "reachable client0"
    by (simp_all add: world0_def client0_def)
  have m: "fst (fullSync demoPlatform world0) = [billC, billB, billA']"
    by (simp add: fullSync_returns_merged [OF c] world0_stored world0_remote world0_merged)
  note rule = fullSync_push_rule [OF c, of demoPlatform, unfolded m world0_stored world0_remote]
  note pushes = rule [THEN conjunct1]
  note scenario = rule [THEN conjunct2, THEN conjunct2, rule_format, of billA billA']
  have "billA' \<in> set (getStoredBills demoPlatform (snd (fullSync demoPlatform world0)))"
    using scenario world0_accepts demoPlatform_roundTrips [of "[billC, billB, billA']"]
    by (simp add: bill_ids bill_stamps)
  moreover have "Upsert (payloadOf billA') \<notin> set (requestsDuring world0 (snd (fullSync demoPlatform world0)))"
    and "Upsert (payloadOf billB) \<in> set (requestsDuring world0 (snd (fullSync demoPlatform world0)))"
    and "Upsert (payloadOf billC) \<notin> set (requestsDuring world0 (snd (fullSync demoPlatform world0)))"
    using pushes by (simp_all add: bill_ids bill_stamps)
  ultimately show ?thesis by (simp add: m)
qed

section \<open>Claims about the local store\<close>

text \<open>
  C9. Round trip. Whenever the write is accepted by the storage and the platform's JSON
  text of the list reads back as the list, \<open>getStoredBills\<close> after \<open>saveBillsToStorage\<close>
  returns the list that was written: the same records in the same order, hence the same
  set of records.
\<close>

theorem saveBillsToStorage_roundtrip:
  assumes "writeAccepted P bills w" and "jsonRoundTrips P bills"
  shows "getStoredBills P (saveBillsToStorage P bills w) = bills
       \<and> set (getStoredBills P (saveBillsToStorage P bills w)) = set bills"
  using getStoredBills_after_save [OF assms] by simp

theorem saveBillsToStorage_roundtrip_witness:
  "getStoredBills demoPlatform (saveBillsToStorage demoPlatform [billC, billB, billA'] world0) =
     [billC, billB, billA']"
  using saveBillsToStorage_roundtrip [OF world0_accepts demoPlatform_roundTrips] by simp

lemma applyGroupSettings_saves:
  "snd (fst (applyGroupSettings P now (a, w))) =
     saveBillsToStorage P (allBills (fst (fst (applyGroupSettings P now (a, w))))) w"
  by (simp add: applyGroupSettings_def Let_def)

lemma handlePackSelected_saves:
  "selectedIds a \<noteq> {} \<Longrightarrow>
   snd (fst (handlePackSelected P True now (a, w))) =
     saveBillsToStorage P (allBills (fst (fst (handlePackSelected P True now (a, w))))) w"
  by (simp add: handlePackSelected_def Let_def)

text \<open>
  C4. When the write of \<open>saveBillsToStorage\<close> is refused by the storage, the stored text
  and so the content of the local store are what they were before the call, and the call
  itself raises an alert that tells the user. The same holds for the batch operations that
  write through it: when the storage refuses the list a group edit or a confirmed bulk
  pack hands over, the local store keeps its content and the alert is raised before the
  handler returns.
\<close>

theorem saveBillsToStorage_refused:
  "(\<not> writeAccepted P bills w \<longrightarrow>
      localStorage (saveBillsToStorage P bills w) = localStorage w
      \<and> getStoredBills P (saveBillsToStorage P bills w) = getStoredBills P w
      \<and> alerts (saveBillsToStorage P bills w) =
          alerts w @ [''Storage full! Please delete some old bills or images.''])
   \<and> (\<not> writeAccepted P (allBills (fst (fst (applyGroupSettings P now (a, w))))) w \<longrightarrow>
      getStoredBills P (snd (fst (applyGroupSettings P now (a, w)))) = getStoredBills P w
      \<and> alerts (snd (fst (applyGroupSettings P now (a, w)))) =
          alerts w @ [''Storage full! Please delete some old bills or images.''])
   \<and> (selectedIds a \<noteq> {}
        \<and> \<not> writeAccepted P (allBills (fst (fst (handlePackSelected P True now (a, w))))) w \<longrightarrow>
      getStoredBills P (snd (fst (handlePackSelected P True now (a, w)))) = getStoredBills P w
      \<and> alerts (snd (fst (handlePackSelected P True now (a, w)))) =
          alerts w @ [''Storage full! Please delete some old bills or images.''])"
proof -
  have refused: "localStorage (saveBillsToStorage P bs w) = localStorage w
      \<and> getStoredBills P (saveBillsToStorage P bs w) = getStoredBills P w
      \<and> alerts (saveBillsToStorage P bs w) =
          alerts w @ [''Storage full! Please delete some old bills or images.'']"
    if "\<not> writeAccepted P bs w" for bs
    by (simp add: saveBillsToStorage_rejected [OF that] getStoredBills_def)
  have group: "getStoredBills P (snd (fst (applyGroupSettings P now (a, w)))) = getStoredBills P w
      \<and> alerts (snd (fst (applyGroupSettings P now (a, w)))) =
          alerts w @ [''Storage full! Please delete some old bills or images.'']"
    if "\<not> writeAccepted P (allBills (fst (fst (applyGroupSettings P now (a, w))))) w"
    using refused [OF that] unfolding applyGroupSettings_saves [symmetric] by simp
  have pack: "getStoredBills P (snd (fst (handlePackSelected P True now (a, w)))) = getStoredBills P w
      \<and> alerts (snd (fst (handlePackSelected P True now (a, w)))) =
          alerts w @ [''Storage full! Please delete some old bills or images.'']"
    if "selectedIds a \<noteq> {}"
      and "\<not> writeAccepted P (allBills (fst (fst (handlePackSelected P True now (a, w))))) w"
    using refused [OF that(2)] unfolding handlePackSelected_saves [OF that(1), symmetric] by simp
  from refused [of bills] group pack show ?thesis by blast
qed

lemma fullPlatform_refuses: "\<not> writeAccepted fullPlatform bills world0"
  by (simp add: writeAccepted_def setItem_def storageSize_def fullPlatform_def demoPlatform_def
      world0_def STORAGE_KEY_def)

theorem saveBillsToStorage_refused_witness:
  "getStoredBills fullPlatform (saveBillsToStorage fullPlatform [billC] world0) = [billA, billB]
   \<and> alerts (saveBillsToStorage fullPlatform [billC] world0) =
       [''Storage full! Please delete some old bills or images.'']
   \<and> getStoredBills fullPlatform (snd (fst (handlePackSelected fullPlatform True 500 (app0, world0)))) =
       [billA, billB]
   \<and> alerts (snd (fst (handlePackSelected fullPlatform True 500 (app0, world0)))) =
       [''Storage full! Please delete some old bills or images.'']"
proof -
  have sel: "selectedIds app0 \<noteq> {}" by (simp add: app0_def)
  have none: "alerts world0 = []" by (simp add: world0_def)
  show ?thesis
    using saveBillsToStorage_refused [where P = fullPlatform and bills = "[billC]" and w = world0
        and a = app0 and now = 500]
      fullPlatform_refuses sel
    by (simp add: world0_stored_full none)
qed

section \<open>Claims about the application\<close>

lemma trim_Nil: "trim [] = []"
  by (simp add: trim_def)

lemma toLowerCase_Nil_iff: "toLowerCase s = [] \<longleftrightarrow> s = []"
  by (simp add: toLowerCase_def)

lemma duplicateCheck_eq:
  "duplicateCheck cand bills =
     (if toLowerCase (trim cand) = [] then None
      else find (\<lambda>b. toLowerCase (trim (invoiceNo b)) = toLowerCase (trim cand)) bills)"
proof (cases "toLowerCase (trim cand) = []")
  case True
  then show ?thesis by (simp add: duplicateCheck_def)
next
  case False
  then have "cand \<noteq> []" by (auto simp: trim_Nil toLowerCase_Nil_iff)
  moreover have "find (\<lambda>b. invoiceNo b \<noteq> [] \<and> toLowerCase (trim (invoiceNo b)) = toLowerCase (trim cand)) bills
      = find (\<lambda>b. toLowerCase (trim (invoiceNo b)) = toLowerCase (trim cand)) bills"
    using False by (intro find_cong refl) (auto simp: trim_Nil toLowerCase_def)
  ultimately show ?thesis using False by (simp add: duplicateCheck_def)
qed

lemma normalized_examples:
  "toLowerCase (trim ''  INV-001 '') = ''inv-001''"
  "toLowerCase (trim ''inv-001'') = ''inv-001''"
  "toLowerCase (trim ''INV-5'') = ''inv-5''"
  "toLowerCase (trim ''   '') = []"
  by code_simp+

text \<open>
  C5. The duplicate check compares the candidate invoice number, trimmed and lower-cased,
  with the invoice number of each existing record, trimmed and lower-cased the same way,
  and reports the first record, in the order of the list, for which the two are equal. A
  candidate whose normalised form is empty (the empty string among them) matches nothing.
  The candidate \<open>''  INV-001 ''\<close> matches a record whose invoice number is \<open>''inv-001''\<close>.
  When \<open>handleAddBill\<close> finds a match, that record is the one it puts into the duplicate
  alert, and neither the list of records nor the world is changed.
\<close>

theorem duplicateCheck_normalized:
  "duplicateCheck cand bills =
     (if toLowerCase (trim cand) = [] then None
      else find (\<lambda>b. toLowerCase (trim (invoiceNo b)) = toLowerCase (trim cand)) bills)
   \<and> (toLowerCase (trim cand) = [] \<longrightarrow> duplicateCheck cand bills = None)
   \<and> duplicateCheck [] bills = None
   \<and> (invoiceNo b = ''inv-001'' \<longrightarrow> duplicateCheck ''  INV-001 '' [b] = Some b)
   \<and> (duplicateCheck cand bills = Some d \<longrightarrow>
        (\<exists>i<length bills. bills ! i = d
           \<and> toLowerCase (trim (invoiceNo d)) = toLowerCase (trim cand)
           \<and> (\<forall>j<i. toLowerCase (trim (invoiceNo (bills ! j))) \<noteq> toLowerCase (trim cand))))
   \<and> (duplicateCheck (ex_invoiceNo e) (allBills a) = Some d \<longrightarrow>
        duplicateAlert (fst (handleAddBill P newId t1 t2 (FileRead img e) (a, w))) =
          Some \<lparr>existing = d, newData = e, base64 = Some img\<rparr>
        \<and> allBills (fst (handleAddBill P newId t1 t2 (FileRead img e) (a, w))) = allBills a
        \<and> snd (handleAddBill P newId t1 t2 (FileRead img e) (a, w)) = w)"
proof -
  have alert: "duplicateAlert (fst (handleAddBill P newId t1 t2 (FileRead img e) (a, w))) =
          Some \<lparr>existing = d, newData = e, base64 = Some img\<rparr>
        \<and> allBills (fst (handleAddBill P newId t1 t2 (FileRead img e) (a, w))) = allBills a
        \<and> snd (handleAddBill P newId t1 t2 (FileRead img e) (a, w)) = w"
    if "duplicateCheck (ex_invoiceNo e) (allBills a) = Some d"
    using that by (simp add: handleAddBill_def Let_def)
  have first: "\<exists>i<length bills. bills ! i = d
           \<and> toLowerCase (trim (invoiceNo d)) = toLowerCase (trim cand)
           \<and> (\<forall>j<i. toLowerCase (trim (invoiceNo (bills ! j))) \<noteq> toLowerCase (trim cand))"
    if "duplicateCheck cand bills = Some d"
  proof -
    from that have "find (\<lambda>b. toLowerCase (trim (invoiceNo b)) = toLowerCase (trim cand)) bills = Some d"
      by (simp add: duplicateCheck_eq split: if_splits)
    then show ?thesis unfolding find_Some_iff by blast
  qed
  have "invoiceNo b = ''inv-001'' \<longrightarrow> duplicateCheck ''  INV-001 '' [b] = Some b"
    by (simp add: duplicateCheck_eq normalized_examples)
  moreover have "duplicateCheck [] bills = None"
    by (simp add: duplicateCheck_def)
  moreover have "duplicateCheck cand bills =
     (if toLowerCase (trim cand) = [] then None
      else find (\<lambda>b. toLowerCase (trim (invoiceNo b)) = toLowerCase (trim cand)) bills)"
    by (rule duplicateCheck_eq)
  moreover have "toLowerCase (trim cand) = [] \<longrightarrow> duplicateCheck cand bills = None"
    by (simp add: duplicateCheck_eq)
  ultimately show ?thesis
    using first alert by blast
qed

theorem duplicateCheck_normalized_witness:
  "duplicateCheck ''  INV-001 '' [billB, billA, billA'] = Some billA
   \<and> duplicateCheck ''   '' [billB, billA, billA'] = None
   \<and> duplicateCheck ''  INV-001 '' [billA'] = Some billA'"
proof -
  have inv: "invoiceNo billA = ''inv-001''" "invoiceNo billA' = ''inv-001''"
    "invoiceNo billB = ''INV-5''"
    by (simp_all add: billA_def billA'_def billB_def)
  show ?thesis
    using duplicateCheck_normalized [where cand = "''  INV-001 ''" and bills = "[billB, billA, billA']"]
      duplicateCheck_normalized [where cand = "''   ''" and bills = "[billB, billA, billA']"]
      duplicateCheck_normalized [where b = billA']
    by (simp add: inv normalized_examples)
qed

text \<open>
  C6. Bulk pack, once confirmed: the list of records keeps its length and order; every
  record whose id is selected has \<open>status = PACKED\<close>, \<open>packedAt\<close> set to the one timestamp
  \<open>now\<close> of the batch and \<open>updatedAt\<close> equal to that same \<open>now\<close>, under the same id; every
  other record is unchanged; and, when something is selected, this list is the one handed
  to \<open>saveBillsToStorage\<close>.
\<close>

theorem handlePackSelected_packs_targets:
  "(let after = allBills (fst (fst (handlePackSelected P True now (a, w)))) in
     length after = length (allBills a)
     \<and> (\<forall>i<length (allBills a).
          (bill_id (allBills a ! i) \<in> selectedIds a \<longrightarrow>
             status (after ! i) = PACKED \<and> packedAt (after ! i) = Some now
             \<and> updatedAt (after ! i) = now \<and> bill_id (after ! i) = bill_id (allBills a ! i))
        \<and> (bill_id (allBills a ! i) \<notin> selectedIds a \<longrightarrow> after ! i = allBills a ! i))
     \<and> (selectedIds a \<noteq> {} \<longrightarrow>
          snd (fst (handlePackSelected P True now (a, w))) = saveBillsToStorage P after w))"
proof (cases "selectedIds a = {}")
  case True
  then show ?thesis by (simp add: handlePackSelected_def)
next
  case False
  then show ?thesis by (simp add: handlePackSelected_def Let_def)
qed

theorem handlePackSelected_packs_targets_witness:
  "status (allBills (fst (fst (handlePackSelected demoPlatform True 500 (app0, world0)))) ! 0) = PACKED
   \<and> packedAt (allBills (fst (fst (handlePackSelected demoPlatform True 500 (app0, world0)))) ! 0) = Some 500
   \<and> updatedAt (allBills (fst (fst (handlePackSelected demoPlatform True 500 (app0, world0)))) ! 0) = 500
   \<and> allBills (fst (fst (handlePackSelected demoPlatform True 500 (app0, world0)))) ! 1 = billB"
proof -
  note packed = handlePackSelected_packs_targets [of demoPlatform 500 app0 world0,
      unfolded Let_def, THEN conjunct2, THEN conjunct1, rule_format]
  have sel: "bill_id (allBills app0 ! 0) \<in> selectedIds app0"
    "bill_id (allBills app0 ! 1) \<notin> selectedIds app0" "allBills app0 ! 1 = billB"
    "0 < length (allBills app0)" "1 < length (allBills app0)"
    by (simp_all add: app0_def bill_ids)
  from packed [OF sel(4)] packed [OF sel(5)] sel(1,2,3) show ?thesis by simp
qed

lemma createBill_new_record:
  "allBills (fst (createBill P newId t_created t_updated e img md (a, w))) = b # bs \<Longrightarrow>
   bs = allBills a \<and> bill_id b = newId \<and> status b = PENDING \<and> packedAt b = None
   \<and> createdAt b = t_created \<and> updatedAt b = t_updated"
  by (auto simp: createBill_def Let_def)

lemma handleManualQuickAdd_creates:
  "allBills (fst (handleManualQuickAdd P newId t_created t_updated name invoice boxes shop (a, w))) =
     allBills (fst (createBill P newId t_created t_updated
        \<lparr>ex_customerName = name, ex_address = [], ex_invoiceNo = invoice,
         ex_billDate = currentDate a\<rparr>
        None (Some \<lparr>md_boxCount = boxes, md_description = shop\<rparr>) (a, w)))"
  by (simp add: handleManualQuickAdd_def split: prod.split)

text \<open>
  C7. \<open>createBill\<close> reads the clock once for \<open>createdAt\<close> and once more for \<open>updatedAt\<close>.
  When the clock advances between the two readings (here from 1000 to 1001), the new
  record, which is \<open>PENDING\<close> and has no \<open>packedAt\<close>, has an \<open>updatedAt\<close> that differs from
  its \<open>createdAt\<close>.
\<close>

theorem createBill_reads_clock_twice:
  "status (hd (allBills (fst (createBill demoPlatform ''k3x9'' 1000 1001
       \<lparr>ex_customerName = ''Asha Stores'', ex_address = ''Kochi'', ex_invoiceNo = ''INV-9'',
        ex_billDate = ''2026-01-05''\<rparr> None None (app0, world0))))) = PENDING
   \<and> packedAt (hd (allBills (fst (createBill demoPlatform ''k3x9'' 1000 1001
       \<lparr>ex_customerName = ''Asha Stores'', ex_address = ''Kochi'', ex_invoiceNo = ''INV-9'',
        ex_billDate = ''2026-01-05''\<rparr> None None (app0, world0))))) = None
   \<and> createdAt (hd (allBills (fst (createBill demoPlatform ''k3x9'' 1000 1001
       \<lparr>ex_customerName = ''Asha Stores'', ex_address = ''Kochi'', ex_invoiceNo = ''INV-9'',
        ex_billDate = ''2026-01-05''\<rparr> None None (app0, world0))))) = 1000
   \<and> updatedAt (hd (allBills (fst (createBill demoPlatform ''k3x9'' 1000 1001
       \<lparr>ex_customerName = ''Asha Stores'', ex_address = ''Kochi'', ex_invoiceNo = ''INV-9'',
        ex_billDate = ''2026-01-05''\<rparr> None None (app0, world0))))) = 1001"
  by (simp add: createBill_def Let_def)

text \<open>
  C8, as the code has it. Group edit, bulk pack and the field edit of a card each set the
  \<open>updatedAt\<close> of every record they change to the clock reading \<open>now\<close> they took; the
  \<open>updatedAt\<close> of such a record is therefore strictly greater than before whenever \<open>now\<close>
  is greater than the value the record had.
\<close>

theorem mutations_stamp_clock_reading:
  "stampedWith now (\<lambda>b. bill_id b \<in> selectedIds a) (allBills a)
     (allBills (fst (fst (applyGroupSettings P now (a, w)))))
   \<and> stampedWith now (\<lambda>b. bill_id b \<in> selectedIds a) (allBills a)
     (allBills (fst (fst (handlePackSelected P True now (a, w)))))
   \<and> stampedWith now (\<lambda>b. bill_id b = bill_id bill) (allBills a)
     (allBills (fst (handleChange P bill fv now (a, w))))"
proof -
  have "stampedWith now (\<lambda>b. bill_id b \<in> selectedIds a) (allBills a)
     (allBills (fst (fst (applyGroupSettings P now (a, w)))))"
    by (simp add: stampedWith_def applyGroupSettings_def Let_def)
  moreover have "stampedWith now (\<lambda>b. bill_id b \<in> selectedIds a) (allBills a)
     (allBills (fst (fst (handlePackSelected P True now (a, w)))))"
    by (cases "selectedIds a = {}") (simp_all add: stampedWith_def handlePackSelected_def Let_def)
  moreover have "stampedWith now (\<lambda>b. bill_id b = bill_id bill) (allBills a)
     (allBills (fst (handleChange P bill fv now (a, w))))"
    by (cases fv) (simp_all add: stampedWith_def handleChange_def handleUpdateBill_def)
  ultimately show ?thesis by blast
qed

theorem mutations_stamp_clock_reading_witness:
  "updatedAt (allBills (fst (fst (applyGroupSettings demoPlatform 500 (app0, world0)))) ! 0) = 500
   \<and> updatedAt (allBills (fst (fst (handlePackSelected demoPlatform True 500 (app0, world0)))) ! 0) = 500
   \<and> updatedAt (allBills (fst (handleChange demoPlatform billA (Set_boxCount 3) 500 (app0, world0))) ! 0) = 500
   \<and> updatedAt (allBills app0 ! 0) < 500"
proof -
  have sel: "bill_id (allBills app0 ! 0) \<in> selectedIds app0"
    "bill_id (allBills app0 ! 0) = bill_id billA" "0 < length (allBills app0)"
    "updatedAt (allBills app0 ! 0) = 100"
    by (simp_all add: app0_def bill_ids bill_stamps)
  show ?thesis
    using mutations_stamp_clock_reading [of 500 app0 demoPlatform world0 billA "Set_boxCount 3"] sel
    by (simp add: stampedWith_def)
qed

text \<open>
  C8, as the claim states it, fails: a bulk pack that reads the clock at 100 leaves a
  record whose \<open>updatedAt\<close> was already 100 with the same \<open>updatedAt\<close>, not a greater one.
\<close>

theorem updatedAt_not_strictly_greater:
  "updatedAt (allBills app0 ! 0) =
     updatedAt (allBills (fst (fst (handlePackSelected demoPlatform True 100 (app0, world0)))) ! 0)
   \<and> bill_id (allBills app0 ! 0) \<in> selectedIds app0"
  by (simp add: handlePackSelected_def Let_def app0_def bill_ids bill_stamps)

end
